theory Spec2Isabelle
  imports Complex_Main "HOL-Library.Sublist"
begin

section \<open>Data model\<close>

text \<open>
  The fleet maintenance store of \<^verbatim>\<open>data.js\<close> keeps reminders and work orders, both
  plain JavaScript objects. The fields the code reads and writes become record fields;
  the string-valued enumerations (\<^verbatim>\<open>type\<close>, \<^verbatim>\<open>status\<close>, \<^verbatim>\<open>priority\<close>) become datatypes.
  Numbers that the code only compares, subtracts and stores (odometer readings, targets,
  warning distances) are integers; the two id counters are naturals (they start at 7 and
  2024 and are only ever incremented, far below the range where a JavaScript number stops
  being an exact integer); a cost is a real number.
\<close>

datatype trigger_type = Odometer | Interval | Date | EngineHours

datatype reminder_status = Scheduled | DueSoon | Overdue

datatype priority = High | Medium | Low

datatype wo_status = Open | InProgress | Completed

text \<open>
  The object handed to \<^verbatim>\<open>addReminder\<close>: every field of a reminder but its id (the
  callers build it from a fixed list of fields, and none of them puts an id into it). Seed
  reminders carry only \<^verbatim>\<open>vehicle\<close>; reminders saved through the form carry
  \<^verbatim>\<open>vehicles\<close> as well, with \<^verbatim>\<open>vehicle\<close> its first element. A field that may be
  absent (\<^verbatim>\<open>vehicles\<close>, \<^verbatim>\<open>date\<close>) is an option; an absent \<^verbatim>\<open>notified\<close> is falsy,
  hence \<open>False\<close>.
\<close>

record reminder_data =
  r_vehicles :: "string list option"
  r_vehicle :: string
  r_make :: string
  r_task :: string
  r_type :: trigger_type
  r_status :: reminder_status
  r_current :: int
  r_target :: int
  r_warn :: int
  r_priority :: priority
  r_notes :: string
  r_assignee :: string
  r_date :: "string option"
  r_notified :: bool

record reminder = reminder_data +
  r_id :: string

text \<open>
  The second argument of \<^verbatim>\<open>updateReminder\<close> is a partial object: the fields it has
  overwrite those of the stored reminder, the others are kept.
\<close>

record reminder_partial =
  p_vehicles :: "string list option"
  p_vehicle :: "string option"
  p_make :: "string option"
  p_task :: "string option"
  p_type :: "trigger_type option"
  p_status :: "reminder_status option"
  p_current :: "int option"
  p_target :: "int option"
  p_warn :: "int option"
  p_priority :: "priority option"
  p_notes :: "string option"
  p_assignee :: "string option"
  p_date :: "string option option"
  p_notified :: "bool option"

record workorder_data =
  wo_vehicle :: string
  wo_make :: string
  wo_task :: string
  wo_status :: wo_status
  wo_assignee :: string
  wo_odo :: string
  wo_cost :: "real option"
  wo_date :: "string option"
  wo_notes :: string
  wo_parts :: string
  wo_labor :: string
  wo_reminderId :: "string option"
  wo_completionDate :: "string option"

record workorder = workorder_data +
  wo_id :: string

text \<open>The four fields of the \<^verbatim>\<open>DataStore\<close> object.\<close>

record store =
  reminders :: "reminder list"
  workOrders :: "workorder list"
  woCounter :: nat
  rCounter :: nat

section \<open>Strings of numbers\<close>

text \<open>
  \<^verbatim>\<open>String(n)\<close> of a natural number is its decimal numeral, and
  \<^verbatim>\<open>s.padStart(n, '0')\<close> puts zeros in front of a string shorter than \<open>n\<close>.
\<close>

definition digit :: "nat \<Rightarrow> char" where
  "digit d = ''0123456789'' ! d"

fun String :: "nat \<Rightarrow> string" where
  "String n = (if n < 10 then [digit n] else String (n div 10) @ [digit (n mod 10)])"

declare String.simps [simp del]

definition padStart :: "nat \<Rightarrow> char \<Rightarrow> string \<Rightarrow> string" where
  "padStart n c s = replicate (n - length s) c @ s"

section \<open>The record store\<close>

text \<open>
  Every operation takes the store and returns its result with the new store. The
  \<^verbatim>\<open>_persist\<close> call that ends each mutation writes the store to \<^verbatim>\<open>localStorage\<close>
  and changes nothing in memory, so it has no counterpart here.
\<close>

fun findIndex :: "('a \<Rightarrow> bool) \<Rightarrow> 'a list \<Rightarrow> nat option" where
  "findIndex P [] = None"
| "findIndex P (x # xs) =
     (if P x then Some 0 else (case findIndex P xs of None \<Rightarrow> None | Some i \<Rightarrow> Some (Suc i)))"

definition splice1 :: "nat \<Rightarrow> 'a list \<Rightarrow> 'a list" where
  "splice1 idx xs = take idx xs @ drop (Suc idx) xs"

definition getReminders :: "store \<Rightarrow> reminder list" where
  "getReminders s = reminders s"

definition addReminder :: "reminder_data \<Rightarrow> store \<Rightarrow> reminder \<times> store" where
  "addReminder data s =
     (let rid = ''R'' @ padStart 3 (CHR ''0'') (String (rCounter s));
          reminder = reminder_data.extend data (reminder.fields rid)
      in (reminder, s\<lparr>reminders := reminder # reminders s, rCounter := rCounter s + 1\<rparr>))"

definition spread :: "reminder \<Rightarrow> reminder_partial \<Rightarrow> reminder" where
  "spread r d = r
     \<lparr> r_vehicles := (case p_vehicles d of None \<Rightarrow> r_vehicles r | Some v \<Rightarrow> Some v),
       r_vehicle := (case p_vehicle d of None \<Rightarrow> r_vehicle r | Some v \<Rightarrow> v),
       r_make := (case p_make d of None \<Rightarrow> r_make r | Some v \<Rightarrow> v),
       r_task := (case p_task d of None \<Rightarrow> r_task r | Some v \<Rightarrow> v),
       r_type := (case p_type d of None \<Rightarrow> r_type r | Some v \<Rightarrow> v),
       r_status := (case p_status d of None \<Rightarrow> r_status r | Some v \<Rightarrow> v),
       r_current := (case p_current d of None \<Rightarrow> r_current r | Some v \<Rightarrow> v),
       r_target := (case p_target d of None \<Rightarrow> r_target r | Some v \<Rightarrow> v),
       r_warn := (case p_warn d of None \<Rightarrow> r_warn r | Some v \<Rightarrow> v),
       r_priority := (case p_priority d of None \<Rightarrow> r_priority r | Some v \<Rightarrow> v),
       r_notes := (case p_notes d of None \<Rightarrow> r_notes r | Some v \<Rightarrow> v),
       r_assignee := (case p_assignee d of None \<Rightarrow> r_assignee r | Some v \<Rightarrow> v),
       r_date := (case p_date d of None \<Rightarrow> r_date r | Some v \<Rightarrow> v),
       r_notified := (case p_notified d of None \<Rightarrow> r_notified r | Some v \<Rightarrow> v) \<rparr>"

definition updateReminder :: "string \<Rightarrow> reminder_partial \<Rightarrow> store \<Rightarrow> reminder option \<times> store" where
  "updateReminder rid data s =
     (case findIndex (\<lambda>r. r_id r = rid) (reminders s) of
        None \<Rightarrow> (None, s)
      | Some idx \<Rightarrow>
          (let rs = (reminders s)[idx := spread (reminders s ! idx) data]
           in (Some (rs ! idx), s\<lparr>reminders := rs\<rparr>)))"

definition deleteReminder :: "string \<Rightarrow> store \<Rightarrow> bool \<times> store" where
  "deleteReminder rid s =
     (case findIndex (\<lambda>r. r_id r = rid) (reminders s) of
        None \<Rightarrow> (False, s)
      | Some idx \<Rightarrow> (True, s\<lparr>reminders := splice1 idx (reminders s)\<rparr>))"

text \<open>
  \<^verbatim>\<open>updateOdometer\<close> walks the reminders with \<^verbatim>\<open>forEach\<close>, rewriting in place every
  reminder whose \<^verbatim>\<open>vehicle\<close> field is the given vehicle and whose type is not
  \<^verbatim>\<open>'Date'\<close>, and raising the \<^verbatim>\<open>changed\<close> flag as it does. The loop carries the flag.
\<close>

fun odometer_loop :: "string \<Rightarrow> int \<Rightarrow> reminder list \<Rightarrow> bool \<Rightarrow> reminder list \<times> bool" where
  "odometer_loop vehicleId odometer [] changed = ([], changed)"
| "odometer_loop vehicleId odometer (r # rs) changed =
     (if r_vehicle r = vehicleId \<and> r_type r \<noteq> Date then
        (let r' = r\<lparr>r_current := odometer,
                     r_status := (if odometer \<ge> r_target r then Overdue
                                  else if r_target r - odometer \<le> r_warn r then DueSoon
                                  else Scheduled)\<rparr>;
             (rs', c) = odometer_loop vehicleId odometer rs True
         in (r' # rs', c))
      else
        (let (rs', c) = odometer_loop vehicleId odometer rs changed
         in (r # rs', c)))"

definition updateOdometer :: "string \<Rightarrow> int \<Rightarrow> store \<Rightarrow> bool \<times> store" where
  "updateOdometer vehicleId odometer s =
     (let (rs, changed) = odometer_loop vehicleId odometer (reminders s) False
      in (changed, s\<lparr>reminders := rs\<rparr>))"

definition getWorkOrders :: "store \<Rightarrow> workorder list" where
  "getWorkOrders s = workOrders s"

definition addWorkOrder :: "workorder_data \<Rightarrow> store \<Rightarrow> workorder \<times> store" where
  "addWorkOrder data s =
     (let c = woCounter s + 1;
          wid = ''WO-'' @ String c;
          wo = workorder_data.extend data (workorder.fields wid)
      in (wo, s\<lparr>workOrders := wo # workOrders s, woCounter := c\<rparr>))"

definition deleteWorkOrder :: "string \<Rightarrow> store \<Rightarrow> bool \<times> store" where
  "deleteWorkOrder wid s =
     (case findIndex (\<lambda>w. wo_id w = wid) (workOrders s) of
        None \<Rightarrow> (False, s)
      | Some idx \<Rightarrow> (True, s\<lparr>workOrders := splice1 idx (workOrders s)\<rparr>))"

subsection \<open>Work-order statistics\<close>

text \<open>
  \<^verbatim>\<open>getWOStats\<close> reads the clock; the two components of \<^verbatim>\<open>new Date()\<close> it uses are
  a parameter. \<^verbatim>\<open>startsWith\<close> is \<^const>\<open>prefix\<close>; \<^verbatim>\<open>w.date && ...\<close> drops a missing or
  empty date; \<^verbatim>\<open>w.cost || 0\<close> counts a missing cost as zero; \<^verbatim>\<open>reduce\<close> is a left fold.
\<close>

record js_date =
  getFullYear :: nat
  getMonth :: nat

record wo_stats =
  st_open :: nat
  st_inProgress :: nat
  st_completed :: nat
  st_spend :: real

definition thisMonth :: "js_date \<Rightarrow> string" where
  "thisMonth now = String (getFullYear now) @ ''-'' @ padStart 2 (CHR ''0'') (String (getMonth now + 1))"

definition in_month :: "string \<Rightarrow> workorder \<Rightarrow> bool" where
  "in_month m w = (case wo_date w of None \<Rightarrow> False | Some d \<Rightarrow> d \<noteq> [] \<and> prefix m d)"

definition cost_or_0 :: "workorder \<Rightarrow> real" where
  "cost_or_0 w = (case wo_cost w of None \<Rightarrow> 0 | Some c \<Rightarrow> c)"

definition getWOStats :: "js_date \<Rightarrow> store \<Rightarrow> wo_stats" where
  "getWOStats now s =
     (let wos = workOrders s;
          mtd = filter (in_month (thisMonth now)) wos
      in \<lparr> st_open = length (filter (\<lambda>w. wo_status w = Open) wos),
           st_inProgress = length (filter (\<lambda>w. wo_status w = InProgress) wos),
           st_completed = length (filter (\<lambda>w. wo_status w = Completed) mtd),
           st_spend = foldl (\<lambda>sum w. sum + cost_or_0 w) 0 mtd \<rparr>)"

section \<open>Seed data and the initial store\<close>

text \<open>
  What \<^verbatim>\<open>init\<close> installs when \<^verbatim>\<open>localStorage\<close> holds nothing. The dash in three of
  the seed strings is not ASCII; it is written as its three UTF-8 bytes.
\<close>

definition dash :: string where
  "dash = [CHR 0xE2, CHR 0x80, CHR 0x94]"

definition seed_reminder ::
  "string \<Rightarrow> string \<Rightarrow> string \<Rightarrow> string \<Rightarrow> trigger_type \<Rightarrow> reminder_status \<Rightarrow> int \<Rightarrow> int \<Rightarrow> int
   \<Rightarrow> priority \<Rightarrow> string \<Rightarrow> string \<Rightarrow> string option \<Rightarrow> reminder" where
  "seed_reminder rid v mk t ty st cur tgt wrn pr nts asg dt =
     \<lparr> r_vehicles = None, r_vehicle = v, r_make = mk, r_task = t, r_type = ty, r_status = st,
       r_current = cur, r_target = tgt, r_warn = wrn, r_priority = pr, r_notes = nts,
       r_assignee = asg, r_date = dt, r_notified = False, r_id = rid \<rparr>"

definition DEFAULT_REMINDERS :: "reminder list" where
  "DEFAULT_REMINDERS =
     [ seed_reminder ''R001'' ''TRK-041'' ''2022 Ford F-250'' ''Oil Change'' Odometer Overdue
         84312 84000 500 High ''Use 5W-30 synthetic'' ''Mike Torres'' None,
       seed_reminder ''R002'' ''VAN-012'' ''2021 Mercedes Sprinter'' ''Air Filter'' Interval DueSoon
         44850 45000 500 Medium [] [] None,
       seed_reminder ''R003'' ''FLT-088'' ''2023 Chevy Silverado'' ''Tire Rotation'' Odometer DueSoon
         22800 23000 500 Low [] [] None,
       seed_reminder ''R004'' ''TRK-022'' ''2020 Ram 2500'' ''Brake Inspection'' Date Scheduled
         61200 65000 1000 High ''Fleet brake check required by DOT'' ''Shop B'' (Some ''2026-03-15''),
       seed_reminder ''R005'' ''SED-055'' ''2022 Ford Explorer'' ''Cabin Filter'' Interval Scheduled
         38100 40000 500 Low [] [] None,
       seed_reminder ''R006'' ''TRK-041'' ''2022 Ford F-250'' ''Transmission Fluid'' Odometer Overdue
         84312 80000 2000 High ''Check for leaks during service'' [] None ]"

definition seed_workorder ::
  "string \<Rightarrow> string \<Rightarrow> string \<Rightarrow> string \<Rightarrow> wo_status \<Rightarrow> string \<Rightarrow> string \<Rightarrow> real option
   \<Rightarrow> string \<Rightarrow> string \<Rightarrow> string \<Rightarrow> string \<Rightarrow> workorder" where
  "seed_workorder wid v mk t st asg odo cst dt nts prts lbr =
     \<lparr> wo_vehicle = v, wo_make = mk, wo_task = t, wo_status = st, wo_assignee = asg,
       wo_odo = odo, wo_cost = cst, wo_date = Some dt, wo_notes = nts, wo_parts = prts,
       wo_labor = lbr, wo_reminderId = None, wo_completionDate = None, wo_id = wid \<rparr>"

definition DEFAULT_WORK_ORDERS :: "workorder list" where
  "DEFAULT_WORK_ORDERS =
     [ seed_workorder ''WO-2023'' ''VAN-012'' ''2021 Mercedes Sprinter'' ''Coolant Flush'' InProgress
         ''Shop A'' ''44,200'' (Some 280) ''2026-02-20''
         ''Flushing and replacing with OEM spec coolant'' (''Coolant '' @ dash @ '' $45'') ''$235'',
       seed_workorder ''WO-2022'' ''FLT-088'' ''2023 Chevy Silverado''
         (''Brake Pads '' @ dash @ '' Front'') Completed
         ''Mike Torres'' ''22,400'' (Some 320) ''2026-02-10''
         ''Replaced front brake pads and rotors'' (''Pads + Rotors '' @ dash @ '' $180'') ''$140'',
       seed_workorder ''WO-2021'' ''TRK-022'' ''2020 Ram 2500'' ''Tire Rotation'' Open
         ''Unassigned'' ''61,000'' None ''2026-02-18'' [] [] [] ]"

definition init :: store where
  "init = \<lparr> reminders = DEFAULT_REMINDERS, workOrders = DEFAULT_WORK_ORDERS,
            woCounter = 2024, rCounter = 7 \<rparr>"

section \<open>Trigger detection\<close>

text \<open>
  \<^verbatim>\<open>_checkForTriggeredReminders\<close> of \<^verbatim>\<open>geotab.js\<close>: the overdue reminders not yet
  notified, sorted by the comparator \<^verbatim>\<open>priorityOrder[a.priority] - priorityOrder[b.priority]\<close>.
  \<^verbatim>\<open>Array.prototype.sort\<close> is stable, as \<^const>\<open>sort_key\<close> is. When there is one and
  the application object is present (\<^verbatim>\<open>window.app\<close>, the first parameter), the front one
  is shown together with \<^verbatim>\<open>r.current - r.target\<close> and marked through \<^verbatim>\<open>updateReminder\<close>.
  The notification raised by a call is its first result.
\<close>

definition priorityOrder :: "priority \<Rightarrow> int" where
  "priorityOrder p = (case p of High \<Rightarrow> 0 | Medium \<Rightarrow> 1 | Low \<Rightarrow> 2)"

definition unnotified_overdue :: "reminder \<Rightarrow> bool" where
  "unnotified_overdue r = (r_status r = Overdue \<and> \<not> r_notified r)"

definition triggered :: "store \<Rightarrow> reminder list" where
  "triggered s = sort_key (\<lambda>r. priorityOrder (r_priority r)) (filter unnotified_overdue (getReminders s))"

definition notified_true :: reminder_partial where
  "notified_true =
     \<lparr> p_vehicles = None, p_vehicle = None, p_make = None, p_task = None, p_type = None,
       p_status = None, p_current = None, p_target = None, p_warn = None, p_priority = None,
       p_notes = None, p_assignee = None, p_date = None, p_notified = Some True \<rparr>"

definition checkForTriggeredReminders :: "bool \<Rightarrow> store \<Rightarrow> (reminder \<times> int) option \<times> store" where
  "checkForTriggeredReminders app s =
     (case triggered s of
        [] \<Rightarrow> (None, s)
      | r # _ \<Rightarrow>
          if app then (Some (r, r_current r - r_target r), snd (updateReminder (r_id r) notified_true s))
          else (None, s))"

text \<open>
  The check run \<open>k\<close> times in a row with nothing in between: the outcome of each call,
  in order (\<open>None\<close> for a call that raises no notification), and the final store.
\<close>

fun check_times :: "nat \<Rightarrow> bool \<Rightarrow> store \<Rightarrow> (reminder \<times> int) option list \<times> store" where
  "check_times 0 app s = ([], s)"
| "check_times (Suc k) app s =
     (let (n, s1) = checkForTriggeredReminders app s;
          (ns, s2) = check_times k app s1
      in (n # ns, s2))"

section \<open>Conversion of a reminder into work orders\<close>

text \<open>
  \<^verbatim>\<open>acceptAndCreateWO\<close> of \<^verbatim>\<open>app.js\<close>. What it reads from outside the store is a
  parameter: the pending reminder, the three inputs of the accept form (\<open>None\<close> where the
  element is missing), today's date and the locale's number formatting. \<^verbatim>\<open>x || d\<close> on a
  string takes \<open>d\<close> when \<open>x\<close> is missing or empty. The function returns nothing in the
  source; the model returns \<^verbatim>\<open>created\<close>, the list its toast counts. The calls that
  follow the creation (closing the dialog, redrawing, the toast) do not touch the store.
\<close>

definition KNOWN_VEHICLES :: "(string \<times> string) list" where
  "KNOWN_VEHICLES =
     [ (''TRK-041'', ''2022 Ford F-250''),
       (''VAN-012'', ''2021 Mercedes Sprinter''),
       (''FLT-088'', ''2023 Chevy Silverado''),
       (''TRK-022'', ''2020 Ram 2500''),
       (''SED-055'', ''2022 Ford Explorer''),
       (''TRK-099'', ''2023 Ram 1500''),
       (''VAN-031'', ''2021 Ford Transit'') ]"

record accept_form =
  accept_assignee :: "string option"
  accept_date :: "string option"
  accept_notes :: "string option"

record env =
  today :: string
  toLocaleString :: "int \<Rightarrow> string"

definition or_else :: "string option \<Rightarrow> string \<Rightarrow> string" where
  "or_else x d = (case x of None \<Rightarrow> d | Some v \<Rightarrow> if v = [] then d else v)"

definition vehicles_of :: "reminder \<Rightarrow> string list" where
  "vehicles_of r = (case r_vehicles r of Some vs \<Rightarrow> vs | None \<Rightarrow> [r_vehicle r])"

fun map_store :: "('a \<Rightarrow> store \<Rightarrow> 'b \<times> store) \<Rightarrow> 'a list \<Rightarrow> store \<Rightarrow> 'b list \<times> store" where
  "map_store f [] s = ([], s)"
| "map_store f (x # xs) s =
     (let (y, s1) = f x s;
          (ys, s2) = map_store f xs s1
      in (y # ys, s2))"

definition new_wo :: "env \<Rightarrow> reminder \<Rightarrow> string \<Rightarrow> string \<Rightarrow> string \<Rightarrow> string \<Rightarrow> workorder_data" where
  "new_wo e r assignee date notes vehicleId =
     \<lparr> wo_vehicle = vehicleId,
       wo_make = (case find (\<lambda>v. fst v = vehicleId) KNOWN_VEHICLES of Some info \<Rightarrow> snd info | None \<Rightarrow> []),
       wo_task = r_task r, wo_status = Open, wo_assignee = assignee,
       wo_odo = toLocaleString e (r_current r), wo_cost = None, wo_date = Some date,
       wo_notes = (if notes = [] then ''Auto-created from reminder '' @ r_id r else notes),
       wo_parts = [], wo_labor = [], wo_reminderId = Some (r_id r),
       wo_completionDate = None \<rparr>"

definition acceptAndCreateWO ::
  "env \<Rightarrow> accept_form \<Rightarrow> reminder option \<Rightarrow> store \<Rightarrow> workorder list option \<times> store" where
  "acceptAndCreateWO e form pendingNotifReminder s =
     (case pendingNotifReminder of
        None \<Rightarrow> (None, s)
      | Some r \<Rightarrow>
          (let vehicles = vehicles_of r;
               assignee = or_else (accept_assignee form) ''Unassigned'';
               date = or_else (accept_date form) (today e);
               notes = or_else (accept_notes form) [];
               (created, s') = map_store (\<lambda>vehicleId. addWorkOrder (new_wo e r assignee date notes vehicleId)) vehicles s
           in (Some created, s')))"

section \<open>Sequences of store operations\<close>

text \<open>
  The four operations that create and delete entities, and a run of them that collects
  the ids the store assigns, oldest first.
\<close>

datatype op =
    AddReminder reminder_data
  | DeleteReminder string
  | AddWorkOrder workorder_data
  | DeleteWorkOrder string

fun apply_op :: "op \<Rightarrow> store \<Rightarrow> string list \<times> store" where
  "apply_op (AddReminder d) s = (let (r, s') = addReminder d s in ([r_id r], s'))"
| "apply_op (DeleteReminder i) s = ([], snd (deleteReminder i s))"
| "apply_op (AddWorkOrder d) s = (let (w, s') = addWorkOrder d s in ([wo_id w], s'))"
| "apply_op (DeleteWorkOrder i) s = ([], snd (deleteWorkOrder i s))"

fun run :: "op list \<Rightarrow> store \<Rightarrow> string list \<times> store" where
  "run [] s = ([], s)"
| "run (x # xs) s =
     (let (i, s1) = apply_op x s;
          (is, s2) = run xs s1
      in (i @ is, s2))"

section \<open>Example inputs\<close>

text \<open>
  The object \<^verbatim>\<open>saveReminder\<close> builds when two vehicles are picked: \<^verbatim>\<open>vehicles\<close> is the
  picked list and \<^verbatim>\<open>vehicle\<close> its first element. \<open>fleet_store\<close> is the initial store
  after that reminder has been added.
\<close>

definition two_vehicle_data :: reminder_data where
  "two_vehicle_data =
     \<lparr> r_vehicles = Some [''TRK-099'', ''VAN-031''], r_vehicle = ''TRK-099'',
       r_make = ''2023 Ram 1500'', r_task = ''Oil Change'', r_type = Odometer,
       r_status = Scheduled, r_current = 0, r_target = 90000, r_warn = 500,
       r_priority = Medium, r_notes = [], r_assignee = [], r_date = None,
       r_notified = False \<rparr>"

definition fleet_store :: store where
  "fleet_store = snd (addReminder two_vehicle_data init)"

text \<open>
  The surroundings of a conversion used in the examples: a locale that prints numbers
  without grouping, and an accept form whose notes were left empty.
\<close>

definition plain_env :: env where
  "plain_env = \<lparr> today = ''2026-11-02'', toLocaleString = (\<lambda>n. String (nat n)) \<rparr>"

definition empty_form :: accept_form where
  "empty_form = \<lparr> accept_assignee = Some [], accept_date = Some ''2026-11-03'', accept_notes = Some [] \<rparr>"

section \<open>Reading a number back from its string\<close>

text \<open>
  The inverse of \<^const>\<open>String\<close>, used to show that different counters give different ids.
\<close>

definition digit_val :: "char \<Rightarrow> nat" where
  "digit_val c = of_char c - 48"

definition number_of :: "string \<Rightarrow> nat" where
  "number_of s = foldl (\<lambda>a c. 10 * a + digit_val c) 0 s"

section \<open>Lookup by id\<close>

lemma findIndex_None_iff: "findIndex P xs = None \<longleftrightarrow> (\<forall>x\<in>set xs. \<not> P x)"
  by (induction xs) (auto split: option.splits)

text \<open>
  C7. \<^verbatim>\<open>updateReminder\<close> with an id that no stored reminder has returns null and leaves
  the whole store, reminders and work orders included, as it was.
\<close>

theorem updateReminder_unknown_id:
  assumes "rid \<notin> r_id ` set (reminders s)"
  shows "updateReminder rid data s = (None, s)"
proof -
  from assms have "findIndex (\<lambda>r. r_id r = rid) (reminders s) = None"
    unfolding findIndex_None_iff by auto
  then show ?thesis by (simp add: updateReminder_def)
qed

theorem updateReminder_unknown_id_witness:
  "''R999'' \<notin> r_id ` set (reminders init) \<and> updateReminder ''R999'' notified_true init = (None, init)"
proof -
  have h: "''R999'' \<notin> r_id ` set (reminders init)"
    by (simp add: init_def DEFAULT_REMINDERS_def seed_reminder_def)
  show ?thesis using h updateReminder_unknown_id [OF h, of notified_true] by simp
qed

text \<open>
  C8. \<^verbatim>\<open>deleteReminder\<close> leaves the work orders (and their counter) untouched, whatever
  their \<^verbatim>\<open>reminderId\<close>, and answers true exactly when a reminder had the id.
\<close>

theorem deleteReminder_keeps_work_orders:
  "workOrders (snd (deleteReminder rid s)) = workOrders s \<and>
   woCounter (snd (deleteReminder rid s)) = woCounter s \<and>
   (fst (deleteReminder rid s) \<longleftrightarrow> rid \<in> r_id ` set (reminders s))"
proof (cases "findIndex (\<lambda>r. r_id r = rid) (reminders s)")
  case None
  then show ?thesis
    using findIndex_None_iff [of "\<lambda>r. r_id r = rid" "reminders s"]
    by (auto simp: deleteReminder_def)
next
  case (Some idx)
  then show ?thesis
    using findIndex_None_iff [of "\<lambda>r. r_id r = rid" "reminders s"]
    by (auto simp: deleteReminder_def)
qed

section \<open>Adding a reminder\<close>

text \<open>
  C9. \<^verbatim>\<open>addReminder\<close> returns the entity it stores: its id is \<^verbatim>\<open>'R'\<close> followed by the
  reminder counter padded to three digits, its other fields are those of \<^verbatim>\<open>data\<close>; it
  becomes the head of the reminders, the earlier ones follow unchanged, and the counter
  grows by one.
\<close>

theorem addReminder_prepends:
  "r_id (fst (addReminder data s)) = ''R'' @ padStart 3 (CHR ''0'') (String (rCounter s)) \<and>
   reminder_data.truncate (fst (addReminder data s)) = data \<and>
   reminders (snd (addReminder data s)) = fst (addReminder data s) # reminders s \<and>
   rCounter (snd (addReminder data s)) = rCounter s + 1 \<and>
   workOrders (snd (addReminder data s)) = workOrders s \<and>
   woCounter (snd (addReminder data s)) = woCounter s"
  by (simp add: addReminder_def Let_def reminder_data.defs reminder.defs)

section \<open>Telemetry updates\<close>

lemma odometer_loop_fst:
  "fst (odometer_loop v x rs c) =
     map (\<lambda>r. if r_vehicle r = v \<and> r_type r \<noteq> Date
               then r\<lparr>r_current := x,
                      r_status := (if x \<ge> r_target r then Overdue
                                   else if r_target r - x \<le> r_warn r then DueSoon
                                   else Scheduled)\<rparr>
               else r) rs"
  by (induction rs arbitrary: c) (simp_all add: Let_def split_beta)

lemma odometer_loop_snd:
  "snd (odometer_loop v x rs c) \<longleftrightarrow> c \<or> (\<exists>r\<in>set rs. r_vehicle r = v \<and> r_type r \<noteq> Date)"
  by (induction rs arbitrary: c) (auto simp: Let_def split_beta)

lemma updateOdometer_reminders:
  "reminders (snd (updateOdometer v x s)) = fst (odometer_loop v x (reminders s) False)"
  by (simp add: updateOdometer_def split_beta)

lemma updateOdometer_changed:
  "fst (updateOdometer v x s) = snd (odometer_loop v x (reminders s) False)"
  by (simp add: updateOdometer_def split_beta)

text \<open>
  C2, as stated, fails where the reading equals the target: the seed reminder R001 has
  target 84000 and warning distance 500, and a reading of 84000 (so that
  \<open>0 \<le> target - current \<le> warn\<close>) makes it overdue, not due soon.
\<close>

theorem due_soon_at_target_counterexample:
  "r_type (reminders init ! 0) \<noteq> Date \<and> r_vehicle (reminders init ! 0) = ''TRK-041'' \<and>
   0 \<le> r_target (reminders init ! 0) - 84000 \<and>
   r_target (reminders init ! 0) - 84000 \<le> r_warn (reminders init ! 0) \<and>
   r_status (reminders (snd (updateOdometer ''TRK-041'' 84000 init)) ! 0) = Overdue \<and>
   r_status (reminders (snd (updateOdometer ''TRK-041'' 84000 init)) ! 0) \<noteq> DueSoon"
  by (simp add: updateOdometer_reminders odometer_loop_fst init_def DEFAULT_REMINDERS_def seed_reminder_def)

text \<open>
  C2, amended. A reminder that \<^verbatim>\<open>updateOdometer\<close> rewrites is due soon when the reading
  is strictly below the target and within the warning distance of it:
  \<open>0 < target - current \<le> warn\<close>.
\<close>

theorem updateOdometer_due_soon:
  assumes "i < length (reminders s)"
    and "r_vehicle (reminders s ! i) = v"
    and "r_type (reminders s ! i) \<noteq> Date"
    and "0 < r_target (reminders s ! i) - x"
    and "r_target (reminders s ! i) - x \<le> r_warn (reminders s ! i)"
  shows "r_status (reminders (snd (updateOdometer v x s)) ! i) = DueSoon"
  using assms by (simp add: updateOdometer_reminders odometer_loop_fst)

theorem updateOdometer_due_soon_witness:
  "(1::nat) < length (reminders init) \<and> r_vehicle (reminders init ! 1) = ''VAN-012'' \<and>
   r_type (reminders init ! 1) \<noteq> Date \<and> 0 < r_target (reminders init ! 1) - 44900 \<and>
   r_target (reminders init ! 1) - 44900 \<le> r_warn (reminders init ! 1) \<and>
   r_status (reminders (snd (updateOdometer ''VAN-012'' 44900 init)) ! 1) = DueSoon"
proof -
  have h: "(1::nat) < length (reminders init)" "r_vehicle (reminders init ! 1) = ''VAN-012''"
    "r_type (reminders init ! 1) \<noteq> Date" "0 < r_target (reminders init ! 1) - 44900"
    "r_target (reminders init ! 1) - 44900 \<le> r_warn (reminders init ! 1)"
    by (simp_all add: init_def DEFAULT_REMINDERS_def seed_reminder_def)
  show ?thesis using h updateOdometer_due_soon [OF h] by simp
qed

text \<open>
  C3, as stated, fails for a vehicle that is not the first of a reminder's vehicles. In
  \<open>fleet_store\<close> the newest reminder is for TRK-099 and VAN-031; a reading for VAN-031
  changes nothing, and \<^verbatim>\<open>current\<close> stays what it was.
\<close>

theorem secondary_vehicle_counterexample:
  "''VAN-031'' \<in> set (vehicles_of (reminders fleet_store ! 0)) \<and>
   r_type (reminders fleet_store ! 0) \<noteq> Date \<and>
   r_current (reminders (snd (updateOdometer ''VAN-031'' 500 fleet_store)) ! 0) \<noteq> 500 \<and>
   updateOdometer ''VAN-031'' 500 fleet_store = (False, fleet_store)"
  by (simp add: updateOdometer_def fleet_store_def addReminder_def two_vehicle_data_def
      init_def DEFAULT_REMINDERS_def seed_reminder_def vehicles_of_def Let_def
      reminder_data.defs reminder.defs)

text \<open>
  C3, amended. \<^verbatim>\<open>updateOdometer\<close> keeps the number and order of the reminders. A
  reminder whose \<^verbatim>\<open>vehicle\<close> field (the first of its vehicles, as the form saves it) is
  the given vehicle and whose type is not \<^verbatim>\<open>'Date'\<close> gets the reading as \<^verbatim>\<open>current\<close> and
  its status recomputed, all its other fields kept; every other reminder is left as it is.
\<close>

theorem updateOdometer_primary_vehicle:
  assumes "i < length (reminders s)"
  shows "length (reminders (snd (updateOdometer v x s))) = length (reminders s) \<and>
    (r_vehicle (reminders s ! i) = v \<and> r_type (reminders s ! i) \<noteq> Date \<longrightarrow>
       reminders (snd (updateOdometer v x s)) ! i =
         (reminders s ! i)\<lparr>r_current := x,
            r_status := (if x \<ge> r_target (reminders s ! i) then Overdue
                         else if r_target (reminders s ! i) - x \<le> r_warn (reminders s ! i) then DueSoon
                         else Scheduled)\<rparr>) \<and>
    (\<not> (r_vehicle (reminders s ! i) = v \<and> r_type (reminders s ! i) \<noteq> Date) \<longrightarrow>
       reminders (snd (updateOdometer v x s)) ! i = reminders s ! i)"
  using assms by (simp add: updateOdometer_reminders odometer_loop_fst)

theorem updateOdometer_primary_vehicle_witness:
  "(0::nat) < length (reminders fleet_store) \<and>
   r_vehicle (reminders fleet_store ! 0) = ''TRK-099'' \<and>
   r_type (reminders fleet_store ! 0) \<noteq> Date \<and>
   r_current (reminders (snd (updateOdometer ''TRK-099'' 89600 fleet_store)) ! 0) = 89600 \<and>
   r_status (reminders (snd (updateOdometer ''TRK-099'' 89600 fleet_store)) ! 0) = DueSoon"
proof -
  have h: "(0::nat) < length (reminders fleet_store)"
    by (simp add: fleet_store_def addReminder_def Let_def)
  have g: "r_vehicle (reminders fleet_store ! 0) = ''TRK-099''"
    "r_type (reminders fleet_store ! 0) \<noteq> Date"
    "r_target (reminders fleet_store ! 0) = 90000" "r_warn (reminders fleet_store ! 0) = 500"
    by (simp_all add: fleet_store_def addReminder_def two_vehicle_data_def Let_def
        reminder_data.defs reminder.defs)
  show ?thesis
    using h g updateOdometer_primary_vehicle [OF h, of "''TRK-099''" 89600] by simp
qed

text \<open>
  C4, as stated, fails when the reading is the one already stored: TRK-041 already stands
  at 84312 in the initial store, the call leaves the store exactly as it was and still
  returns true.
\<close>

theorem rewrite_same_value_counterexample:
  "fst (updateOdometer ''TRK-041'' 84312 init) \<and> snd (updateOdometer ''TRK-041'' 84312 init) = init"
  by (simp add: updateOdometer_def init_def DEFAULT_REMINDERS_def seed_reminder_def Let_def)

text \<open>
  C4, amended. \<^verbatim>\<open>updateOdometer\<close> returns true exactly when some reminder has the given
  vehicle in its \<^verbatim>\<open>vehicle\<close> field and a type other than \<^verbatim>\<open>'Date'\<close>, that is, when it
  rewrote a reminder, with new values or the same ones. Hence it returns true whenever a
  reminder changed.
\<close>

theorem updateOdometer_returns_matched:
  "(fst (updateOdometer v x s) \<longleftrightarrow> (\<exists>r\<in>set (reminders s). r_vehicle r = v \<and> r_type r \<noteq> Date)) \<and>
   (reminders (snd (updateOdometer v x s)) \<noteq> reminders s \<longrightarrow> fst (updateOdometer v x s))"
proof -
  have a: "fst (updateOdometer v x s) \<longleftrightarrow> (\<exists>r\<in>set (reminders s). r_vehicle r = v \<and> r_type r \<noteq> Date)"
    by (simp add: updateOdometer_changed odometer_loop_snd)
  have "reminders (snd (updateOdometer v x s)) = reminders s" if "\<not> fst (updateOdometer v x s)"
  proof -
    from that a have "\<forall>r\<in>set (reminders s). \<not> (r_vehicle r = v \<and> r_type r \<noteq> Date)" by blast
    then show ?thesis
      unfolding updateOdometer_reminders odometer_loop_fst by (intro map_idI) auto
  qed
  with a show ?thesis by blast
qed

theorem updateOdometer_returns_matched_witness:
  "reminders (snd (updateOdometer ''VAN-012'' 45000 init)) \<noteq> reminders init \<and>
   fst (updateOdometer ''VAN-012'' 45000 init) \<and>
   (\<exists>r\<in>set (reminders init). r_vehicle r = ''VAN-012'' \<and> r_type r \<noteq> Date)"
proof -
  have h: "reminders (snd (updateOdometer ''VAN-012'' 45000 init)) \<noteq> reminders init"
    by (simp add: updateOdometer_reminders odometer_loop_fst init_def DEFAULT_REMINDERS_def
        seed_reminder_def)
  show ?thesis
    using h updateOdometer_returns_matched [of "''VAN-012''" 45000 init] by blast
qed

section \<open>Work-order statistics\<close>

lemma foldl_spend: "foldl (\<lambda>sum w. sum + f w) (a::real) ws = a + sum_list (map f ws)"
  by (induction ws arbitrary: a) simp_all

text \<open>
  C10. The month-to-date spend is the sum of the costs, a missing cost counting as zero,
  of the work orders whose date starts with the current year-month string; the completed
  count is the number of those that are completed. Changing the status of work orders
  does not change the spend, and changing their completion dates changes no figure.
\<close>

theorem getWOStats_month_bucket:
  "st_spend (getWOStats now s) =
     sum_list (map (\<lambda>w. case wo_cost w of None \<Rightarrow> 0 | Some c \<Rightarrow> c)
       (filter (\<lambda>w. case wo_date w of None \<Rightarrow> False | Some d \<Rightarrow> d \<noteq> [] \<and> prefix (thisMonth now) d)
          (workOrders s))) \<and>
   st_completed (getWOStats now s) =
     length (filter (\<lambda>w. wo_status w = Completed)
       (filter (\<lambda>w. case wo_date w of None \<Rightarrow> False | Some d \<Rightarrow> d \<noteq> [] \<and> prefix (thisMonth now) d)
          (workOrders s))) \<and>
   st_spend (getWOStats now (s\<lparr>workOrders := map (\<lambda>w. w\<lparr>wo_status := f w\<rparr>) (workOrders s)\<rparr>)) =
     st_spend (getWOStats now s) \<and>
   getWOStats now (s\<lparr>workOrders := map (\<lambda>w. w\<lparr>wo_completionDate := g w\<rparr>) (workOrders s)\<rparr>) =
     getWOStats now s"
proof -
  have m: "in_month m = (\<lambda>w. case wo_date w of None \<Rightarrow> False | Some d \<Rightarrow> d \<noteq> [] \<and> prefix m d)" for m
    by (rule ext) (simp add: in_month_def)
  have c: "cost_or_0 = (\<lambda>w. case wo_cost w of None \<Rightarrow> 0 | Some c \<Rightarrow> c)"
    by (rule ext) (simp add: cost_or_0_def)
  show ?thesis
    by (simp add: getWOStats_def Let_def foldl_spend filter_map o_def m c)
qed

text \<open>
  In February 2026 the seed work orders give a spend of 600: the 280 of the order in
  progress count as the 320 of the completed one do.
\<close>

lemma getWOStats_seed_february:
  "getWOStats \<lparr>getFullYear = 2026, getMonth = 1\<rparr> init =
     \<lparr>st_open = 1, st_inProgress = 1, st_completed = 1, st_spend = 600\<rparr>"
  by (simp add: getWOStats_def init_def DEFAULT_WORK_ORDERS_def seed_workorder_def thisMonth_def
      String.simps digit_def padStart_def in_month_def cost_or_0_def Let_def)

section \<open>Conversion of a reminder into work orders\<close>

lemma map_store_addWorkOrder:
  "map_store (\<lambda>v. addWorkOrder (mk v)) vs s =
     (map (\<lambda>(c, v). workorder_data.extend (mk v) (workorder.fields (''WO-'' @ String c)))
        (enumerate (woCounter s + 1) vs),
      s\<lparr>workOrders :=
           rev (map (\<lambda>(c, v). workorder_data.extend (mk v) (workorder.fields (''WO-'' @ String c)))
             (enumerate (woCounter s + 1) vs)) @ workOrders s,
         woCounter := woCounter s + length vs\<rparr>)"
proof (induction vs arbitrary: s)
  case Nil
  show ?case by simp
next
  case (Cons v vs)
  show ?case
    by (subst map_store.simps(2), simp only: Cons) (simp add: addWorkOrder_def Let_def)
qed

text \<open>
  C5. Accepting a reminder creates one work order for each of its vehicles, in their
  order (the legacy single \<^verbatim>\<open>vehicle\<close> counting as a list of one): the created list is as
  long as the vehicles list and is put, newest first, in front of the stored work orders;
  each order is open, carries the reminder's id as \<^verbatim>\<open>reminderId\<close>, its \<^verbatim>\<open>current\<close>
  value formatted as \<^verbatim>\<open>odo\<close>, the next work-order number as id and, when the notes input
  is missing or empty, the note \<^verbatim>\<open>Auto-created from reminder <id>\<close>.
\<close>

theorem acceptAndCreateWO_fan_out:
  "\<exists>created s'.
     acceptAndCreateWO e form (Some r) s = (Some created, s') \<and>
     length created = length (vehicles_of r) \<and>
     workOrders s' = rev created @ workOrders s \<and>
     woCounter s' = woCounter s + length (vehicles_of r) \<and>
     reminders s' = reminders s \<and> rCounter s' = rCounter s \<and>
     (\<forall>i<length (vehicles_of r).
        wo_vehicle (created ! i) = vehicles_of r ! i \<and>
        wo_id (created ! i) = ''WO-'' @ String (woCounter s + 1 + i) \<and>
        wo_status (created ! i) = Open \<and>
        wo_reminderId (created ! i) = Some (r_id r) \<and>
        wo_odo (created ! i) = toLocaleString e (r_current r) \<and>
        wo_task (created ! i) = r_task r \<and>
        (accept_notes form = None \<or> accept_notes form = Some [] \<longrightarrow>
           wo_notes (created ! i) = ''Auto-created from reminder '' @ r_id r))"
  unfolding acceptAndCreateWO_def Let_def map_store_addWorkOrder
  by (auto simp: nth_enumerate_eq new_wo_def or_else_def workorder_data.defs workorder.defs)

theorem acceptAndCreateWO_fan_out_witness:
  "\<exists>created s'.
     acceptAndCreateWO plain_env empty_form (Some (reminders fleet_store ! 0)) fleet_store = (Some created, s') \<and>
     length created = 2 \<and>
     wo_vehicle (created ! 1) = ''VAN-031'' \<and>
     wo_status (created ! 1) = Open \<and>
     wo_reminderId (created ! 1) = Some ''R007'' \<and>
     wo_notes (created ! 1) = ''Auto-created from reminder R007''"
proof -
  have v: "vehicles_of (reminders fleet_store ! 0) = [''TRK-099'', ''VAN-031'']"
    and i: "r_id (reminders fleet_store ! 0) = ''R007''"
    by (simp_all add: fleet_store_def addReminder_def two_vehicle_data_def vehicles_of_def Let_def
        reminder_data.defs reminder.defs init_def padStart_def String.simps digit_def numeral_2_eq_2)
  have h: "(1::nat) < length (vehicles_of (reminders fleet_store ! 0))"
    and f: "accept_notes empty_form = None \<or> accept_notes empty_form = Some []"
    by (simp_all add: v empty_form_def)
  from acceptAndCreateWO_fan_out [of plain_env empty_form "reminders fleet_store ! 0" fleet_store]
  obtain created s' where
    a: "acceptAndCreateWO plain_env empty_form (Some (reminders fleet_store ! 0)) fleet_store = (Some created, s')"
    and l: "length created = length (vehicles_of (reminders fleet_store ! 0))"
    and p: "\<forall>i<length (vehicles_of (reminders fleet_store ! 0)).
        wo_vehicle (created ! i) = vehicles_of (reminders fleet_store ! 0) ! i \<and>
        wo_id (created ! i) = ''WO-'' @ String (woCounter fleet_store + 1 + i) \<and>
        wo_status (created ! i) = Open \<and>
        wo_reminderId (created ! i) = Some (r_id (reminders fleet_store ! 0)) \<and>
        wo_odo (created ! i) = toLocaleString plain_env (r_current (reminders fleet_store ! 0)) \<and>
        wo_task (created ! i) = r_task (reminders fleet_store ! 0) \<and>
        (accept_notes empty_form = None \<or> accept_notes empty_form = Some [] \<longrightarrow>
           wo_notes (created ! i) = ''Auto-created from reminder '' @ r_id (reminders fleet_store ! 0))"
    by blast
  from p h f have "wo_vehicle (created ! 1) = ''VAN-031'' \<and> wo_status (created ! 1) = Open \<and>
     wo_reminderId (created ! 1) = Some ''R007'' \<and>
     wo_notes (created ! 1) = ''Auto-created from reminder R007''"
    by (simp add: v i)
  with a l v show ?thesis by simp
qed

section \<open>Identifiers are never reused\<close>

lemma digit_val_digit: "d < 10 \<Longrightarrow> digit_val (digit d) = d"
proof -
  assume "d < 10"
  then have "d \<in> {0, 1, 2, 3, 4, 5, 6, 7, 8, 9}" by auto
  then show ?thesis by (auto simp: digit_def digit_val_def)
qed

lemma number_of_snoc: "number_of (s @ [c]) = 10 * number_of s + digit_val c"
  by (simp add: number_of_def)

lemma number_of_String: "number_of (String n) = n"
proof (induction n rule: String.induct)
  case (1 n)
  show ?case
  proof (cases "n < 10")
    case True
    then show ?thesis by (simp add: String.simps [of n] number_of_def digit_val_digit)
  next
    case False
    with 1 show ?thesis
      by (simp add: String.simps [of n] number_of_snoc digit_val_digit)
  qed
qed

lemma number_of_zeros: "number_of (replicate k (CHR ''0'') @ s) = number_of s"
proof -
  have "foldl (\<lambda>a c. 10 * a + digit_val c) 0 (replicate k (CHR ''0'')) = 0"
    by (induction k) (simp_all add: digit_val_def)
  then show ?thesis by (simp add: number_of_def)
qed

lemma number_of_padStart: "number_of (padStart k (CHR ''0'') (String n)) = n"
  by (simp add: padStart_def number_of_zeros number_of_String)

lemma padStart_String_inj:
  assumes "padStart k (CHR ''0'') (String n) = padStart k (CHR ''0'') (String m)"
  shows "n = m"
proof -
  from assms have "number_of (padStart k (CHR ''0'') (String n)) = number_of (padStart k (CHR ''0'') (String m))"
    by (rule arg_cong)
  then show ?thesis by (simp only: number_of_padStart)
qed

lemma String_inj:
  assumes "String n = String m"
  shows "n = m"
proof -
  from assms have "number_of (String n) = number_of (String m)"
    by (rule arg_cong)
  then show ?thesis by (simp only: number_of_String)
qed

lemma deleteReminder_counters:
  "rCounter (snd (deleteReminder i s)) = rCounter s \<and> woCounter (snd (deleteReminder i s)) = woCounter s"
  by (simp add: deleteReminder_def split: option.splits)

lemma deleteWorkOrder_counters:
  "rCounter (snd (deleteWorkOrder i s)) = rCounter s \<and> woCounter (snd (deleteWorkOrder i s)) = woCounter s"
  by (simp add: deleteWorkOrder_def split: option.splits)

lemma apply_op_ids:
  "fst (apply_op x s) = [] \<and> rCounter (snd (apply_op x s)) = rCounter s \<and>
     woCounter (snd (apply_op x s)) = woCounter s
   \<or> fst (apply_op x s) = [''R'' @ padStart 3 (CHR ''0'') (String (rCounter s))] \<and>
     rCounter (snd (apply_op x s)) = rCounter s + 1 \<and> woCounter (snd (apply_op x s)) = woCounter s
   \<or> fst (apply_op x s) = [''WO-'' @ String (woCounter s + 1)] \<and>
     rCounter (snd (apply_op x s)) = rCounter s \<and> woCounter (snd (apply_op x s)) = woCounter s + 1"
  by (cases x)
    (simp_all add: addReminder_def addWorkOrder_def Let_def deleteReminder_counters
      deleteWorkOrder_counters reminder_data.defs reminder.defs workorder_data.defs workorder.defs)

lemma run_Cons:
  "fst (run (x # xs) s) = fst (apply_op x s) @ fst (run xs (snd (apply_op x s)))"
  "snd (run (x # xs) s) = snd (run xs (snd (apply_op x s)))"
  by (simp_all add: split_beta)

lemma run_counters:
  "rCounter s \<le> rCounter (snd (run xs s)) \<and> woCounter s \<le> woCounter (snd (run xs s))"
proof (induction xs arbitrary: s)
  case Nil
  show ?case by simp
next
  case (Cons x xs)
  from Cons [of "snd (apply_op x s)"] apply_op_ids [of x s]
  show ?case unfolding run_Cons by auto
qed

lemma run_ids:
  assumes "i \<in> set (fst (run xs s))"
  shows "(\<exists>n. i = ''R'' @ padStart 3 (CHR ''0'') (String n) \<and> rCounter s \<le> n)
       \<or> (\<exists>n. i = ''WO-'' @ String n \<and> woCounter s < n)"
  using assms
proof (induction xs arbitrary: s)
  case Nil
  then show ?case by simp
next
  case (Cons x xs)
  from Cons.prems consider "i \<in> set (fst (apply_op x s))" | "i \<in> set (fst (run xs (snd (apply_op x s))))"
    unfolding run_Cons by auto
  then show ?case
  proof cases
    case 1
    with apply_op_ids [of x s] show ?thesis by auto
  next
    case 2
    from Cons.IH [OF 2] apply_op_ids [of x s] show ?thesis
      by (elim disjE exE conjE) (simp_all, (metis Suc_leD Suc_lessD)+)
  qed
qed

lemma run_distinct: "distinct (fst (run xs s))"
proof (induction xs arbitrary: s)
  case Nil
  show ?case by simp
next
  case (Cons x xs)
  have d: "distinct (fst (apply_op x s))"
    using apply_op_ids [of x s] by auto
  have "i \<notin> set (fst (run xs (snd (apply_op x s))))" if "i \<in> set (fst (apply_op x s))" for i
  proof
    assume a: "i \<in> set (fst (run xs (snd (apply_op x s))))"
    from that apply_op_ids [of x s] consider
      "i = ''R'' @ padStart 3 (CHR ''0'') (String (rCounter s))" "rCounter (snd (apply_op x s)) = rCounter s + 1"
      | "i = ''WO-'' @ String (woCounter s + 1)" "woCounter (snd (apply_op x s)) = woCounter s + 1"
      by auto
    then show False
    proof cases
      case 1
      from run_ids [OF a] 1 show False
        by (auto dest: padStart_String_inj)
    next
      case 2
      from run_ids [OF a] 2 show False
        by (auto dest: String_inj)
    qed
  qed
  with d Cons [of "snd (apply_op x s)"] show ?case
    unfolding run_Cons by auto
qed

lemma seed_ids:
  "r_id ` set (reminders init) = (\<lambda>n. ''R'' @ padStart 3 (CHR ''0'') (String n)) ` {1, 2, 3, 4, 5, 6}"
  "wo_id ` set (workOrders init) = (\<lambda>n. ''WO-'' @ String n) ` {2021, 2022, 2023}"
  by (auto simp: init_def DEFAULT_REMINDERS_def DEFAULT_WORK_ORDERS_def seed_reminder_def
      seed_workorder_def String.simps digit_def padStart_def numeral_2_eq_2)

text \<open>
  C6. Whatever reminders and work orders are added and deleted, starting from the initial
  store, the ids the store assigns are pairwise different and different from the ids of
  the seed entities: a deletion leaves both counters alone, an addition uses its counter
  and moves it on.
\<close>

theorem ids_never_reused:
  "distinct (fst (run ops init)) \<and>
   set (fst (run ops init)) \<inter> (r_id ` set (reminders init) \<union> wo_id ` set (workOrders init)) = {}"
proof -
  have "i \<notin> r_id ` set (reminders init) \<union> wo_id ` set (workOrders init)"
    if "i \<in> set (fst (run ops init))" for i
  proof -
    have c: "rCounter init = 7" "woCounter init = 2024" by (simp_all add: init_def)
    from run_ids [OF that] show ?thesis
      unfolding seed_ids c
      by (auto dest!: padStart_String_inj String_inj)
  qed
  with run_distinct [of ops init] show ?thesis by blast
qed

section \<open>Trigger detection\<close>

lemma findIndex_Some:
  "findIndex P xs = Some i \<Longrightarrow> i < length xs \<and> P (xs ! i)"
  by (induction xs arbitrary: i) (auto split: if_splits option.splits)

lemma insort_key_head:
  "insort_key f r xs = r # rest \<Longrightarrow> rest = xs"
  by (cases xs) (auto split: if_splits)

lemma sort_key_without_head:
  assumes "sort_key f (as @ r # bs) = r # rest" and "r \<notin> set as"
  shows "sort_key f (as @ bs) = rest"
  using assms
proof (induction as arbitrary: rest)
  case Nil
  from Nil(1) have "insort_key f r (sort_key f bs) = r # rest" by simp
  from insort_key_head [OF this] show ?case by simp
next
  case (Cons a as)
  from Cons.prems(2) have ar: "a \<noteq> r" and nr: "r \<notin> set as" by auto
  from Cons.prems(1) have ins: "insort_key f a (sort_key f (as @ r # bs)) = r # rest" by simp
  have "length (sort_key f (as @ r # bs)) = Suc (length as + length bs)"
    by simp
  then obtain l ls where l: "sort_key f (as @ r # bs) = l # ls"
    by (cases "sort_key f (as @ r # bs)") simp_all
  from ins have "insort_key f a (l # ls) = r # rest" by (simp only: l)
  with ar have lr: "l = r" and rest: "rest = insort_key f a ls"
    by (simp_all split: if_splits)
  from l have "sort_key f (as @ r # bs) = r # ls" by (simp only: lr)
  from Cons.IH [OF this nr] have "sort_key f (as @ bs) = ls" .
  then show ?case by (simp add: rest)
qed

lemma spread_notified_true: "spread r notified_true = r\<lparr>r_notified := True\<rparr>"
  by (simp add: spread_def notified_true_def)

lemma notify_front:
  assumes d: "distinct (map r_id (reminders s))"
    and t: "triggered s = r # rest"
  shows "triggered (snd (updateReminder (r_id r) notified_true s)) = rest \<and>
         map r_id (reminders (snd (updateReminder (r_id r) notified_true s))) = map r_id (reminders s)"
proof -
  let ?rs = "reminders s"
  from t have "r \<in> set (triggered s)" by simp
  then have rin: "r \<in> set ?rs" and P: "unnotified_overdue r"
    by (simp_all add: triggered_def getReminders_def)
  then have "findIndex (\<lambda>x. r_id x = r_id r) ?rs \<noteq> None"
    by (auto simp: findIndex_None_iff)
  then obtain i where i: "findIndex (\<lambda>x. r_id x = r_id r) ?rs = Some i" by blast
  from findIndex_Some [OF i] have il: "i < length ?rs" and "r_id (?rs ! i) = r_id r" by simp_all
  moreover from d have "inj_on r_id (set ?rs)" and dr: "distinct ?rs"
    by (simp_all add: distinct_map)
  ultimately have ri: "?rs ! i = r" using rin by (auto dest: inj_onD)
  have s1: "reminders (snd (updateReminder (r_id r) notified_true s)) = ?rs[i := r\<lparr>r_notified := True\<rparr>]"
    by (simp add: updateReminder_def i ri spread_notified_true Let_def)
  have split: "?rs = take i ?rs @ r # drop (Suc i) ?rs"
    by (rule id_take_nth_drop [OF il, unfolded ri])
  have upd: "?rs[i := r\<lparr>r_notified := True\<rparr>] = take i ?rs @ r\<lparr>r_notified := True\<rparr> # drop (Suc i) ?rs"
    by (rule upd_conv_take_nth_drop [OF il])
  have nP: "\<not> unnotified_overdue (r\<lparr>r_notified := True\<rparr>)"
    by (simp add: unnotified_overdue_def)
  from dr have "distinct (take i ?rs @ r # drop (Suc i) ?rs)"
    by (simp only: split [symmetric])
  then have "r \<notin> set (take i ?rs)" by simp
  then have notin: "r \<notin> set (filter unnotified_overdue (take i ?rs))" by simp
  have f0: "filter unnotified_overdue ?rs =
      filter unnotified_overdue (take i ?rs) @ r # filter unnotified_overdue (drop (Suc i) ?rs)"
    using arg_cong [OF split, of "filter unnotified_overdue"] by (simp add: P)
  have f1: "filter unnotified_overdue (?rs[i := r\<lparr>r_notified := True\<rparr>]) =
      filter unnotified_overdue (take i ?rs) @ filter unnotified_overdue (drop (Suc i) ?rs)"
    unfolding upd by (simp add: nP)
  from t have "sort_key (\<lambda>r. priorityOrder (r_priority r))
      (filter unnotified_overdue (take i ?rs) @ r # filter unnotified_overdue (drop (Suc i) ?rs)) = r # rest"
    by (simp add: triggered_def getReminders_def f0)
  from sort_key_without_head [OF this notin]
  have "triggered (snd (updateReminder (r_id r) notified_true s)) = rest"
    by (simp add: triggered_def getReminders_def s1 f1)
  moreover have "map r_id (?rs[i := r\<lparr>r_notified := True\<rparr>]) = map r_id ?rs"
  proof -
    have "(map r_id ?rs)[i := r_id r] = map r_id ?rs"
      using ri il by (metis list_update_id nth_map)
    then show ?thesis by (simp add: map_update)
  qed
  ultimately show ?thesis by (simp add: s1)
qed

lemma check_times_fst_Suc:
  "fst (check_times (Suc k) app s) =
     fst (checkForTriggeredReminders app s) # fst (check_times k app (snd (checkForTriggeredReminders app s)))"
  by (simp add: split_beta)

lemma check_times_take:
  assumes "distinct (map r_id (reminders s))"
  shows "fst (check_times k True s) =
           map (\<lambda>r. Some (r, r_current r - r_target r)) (take k (triggered s)) @
           replicate (k - length (triggered s)) None"
  using assms
proof (induction k arbitrary: s)
  case 0
  show ?case by simp
next
  case (Suc k)
  show ?case
  proof (cases "triggered s")
    case Nil
    then have c: "checkForTriggeredReminders True s = (None, s)"
      by (simp add: checkForTriggeredReminders_def)
    from Suc.IH [OF Suc.prems] Nil show ?thesis
      unfolding check_times_fst_Suc c by simp
  next
    case (Cons r rest)
    let ?s1 = "snd (updateReminder (r_id r) notified_true s)"
    have c: "checkForTriggeredReminders True s = (Some (r, r_current r - r_target r), ?s1)"
      by (simp add: checkForTriggeredReminders_def Cons)
    from notify_front [OF Suc.prems Cons]
    have t1: "triggered ?s1 = rest" and d1: "distinct (map r_id (reminders ?s1))"
      using Suc.prems by simp_all
    from Suc.IH [OF d1] show ?thesis
      unfolding check_times_fst_Suc c by (simp add: t1 Cons)
  qed
qed


lemma triggered_init: "triggered init = [reminders init ! 0, reminders init ! 5]"
  by (simp add: triggered_def getReminders_def init_def DEFAULT_REMINDERS_def seed_reminder_def
      unnotified_overdue_def priorityOrder_def)

lemma distinct_ids_init: "distinct (map r_id (reminders init))"
  by (simp add: init_def DEFAULT_REMINDERS_def seed_reminder_def)

text \<open>
  C1, as stated, fails as soon as two reminders are overdue and not yet notified. The
  initial store has two, R001 and R006: the first check notifies R001, and the second,
  with nothing in between, notifies R006 instead of raising nothing.
\<close>

theorem second_call_notifies_counterexample:
  "length (filter unnotified_overdue (reminders init)) = 2 \<and>
   fst (checkForTriggeredReminders True init) = Some (reminders init ! 0, 312) \<and>
   fst (checkForTriggeredReminders True (snd (checkForTriggeredReminders True init))) =
     Some (reminders init ! 5, 4312)"
  by (simp add: checkForTriggeredReminders_def updateReminder_def triggered_def getReminders_def
      init_def DEFAULT_REMINDERS_def seed_reminder_def unnotified_overdue_def priorityOrder_def
      spread_def notified_true_def Let_def)

text \<open>
  C1, amended. In a store whose reminder ids are pairwise different, with the application
  object present, \<open>k\<close> checks in a row raise one notification per call for as long as an
  overdue reminder is left unnotified, and none afterwards: \<open>min k N\<close> in all, where \<open>N\<close>
  is the number of overdue unnotified reminders at the start. The reminders notified are
  exactly the first \<open>k\<close> of those \<open>N\<close> in ascending priority order (each with
  \<open>current - target\<close>), pairwise different, so each call notifies a minimum of those
  still unnotified and the first call a minimum of all.
\<close>

theorem check_times_one_per_call:
  assumes "distinct (map r_id (reminders s))"
  shows "fst (check_times k True s) =
           map (\<lambda>r. Some (r, r_current r - r_target r)) (take k (triggered s)) @
           replicate (k - length (triggered s)) None \<and>
         set (triggered s) = {r \<in> set (reminders s). r_status r = Overdue \<and> \<not> r_notified r} \<and>
         length (triggered s) = length (filter (\<lambda>r. r_status r = Overdue \<and> \<not> r_notified r) (reminders s)) \<and>
         distinct (map r_id (triggered s)) \<and>
         sorted (map (\<lambda>r. priorityOrder (r_priority r)) (triggered s))"
proof -
  have u: "unnotified_overdue = (\<lambda>r. r_status r = Overdue \<and> \<not> r_notified r)"
    by (rule ext) (simp add: unnotified_overdue_def)
  from assms have "distinct (map r_id (filter unnotified_overdue (reminders s)))"
    by (rule distinct_map_filter)
  then have "distinct (map r_id (triggered s))"
    by (simp add: distinct_map triggered_def getReminders_def)
  moreover have "sorted (map (\<lambda>r. priorityOrder (r_priority r)) (triggered s))"
    unfolding triggered_def by (rule sorted_sort_key)
  moreover have "set (triggered s) = {r \<in> set (reminders s). r_status r = Overdue \<and> \<not> r_notified r}"
    by (auto simp: triggered_def getReminders_def u)
  moreover have "length (triggered s) =
      length (filter (\<lambda>r. r_status r = Overdue \<and> \<not> r_notified r) (reminders s))"
    by (simp add: triggered_def getReminders_def u)
  ultimately show ?thesis
    using check_times_take [OF assms, of k] by blast
qed

theorem check_times_one_per_call_witness:
  "distinct (map r_id (reminders init)) \<and>
   fst (check_times 3 True init) =
     [Some (reminders init ! 0, 312), Some (reminders init ! 5, 4312), None]"
proof -
  have v: "r_current (reminders init ! 0) - r_target (reminders init ! 0) = 312"
    "r_current (reminders init ! 5) - r_target (reminders init ! 5) = 4312"
    by (simp_all add: init_def DEFAULT_REMINDERS_def seed_reminder_def)
  show ?thesis
    using distinct_ids_init check_times_one_per_call [OF distinct_ids_init, of 3]
    by (simp add: triggered_init v)
qed

end
